theory Spec2Isabelle
  imports Complex_Main "HOL-Library.Multiset"
begin

section \<open>JavaScript values used by the middleware\<close>

text \<open>
  A JavaScript string is a sequence of code units. The model uses \<^typ>\<open>string\<close> and
  reads a \<^typ>\<open>char\<close> as a code unit in the range U+0000..U+00FF, so \<open>trim\<close> and
  \<open>toLowerCase\<close> are the restrictions of the JavaScript functions to such strings.
\<close>

definition isJsWhitespace :: "char \<Rightarrow> bool" where
  \<comment> \<open>WhiteSpace and LineTerminator of ECMAScript below U+0100:
      TAB, LF, VT, FF, CR, SP, NBSP.\<close>
  "isJsWhitespace c = ((of_char c :: nat) \<in> {9, 10, 11, 12, 13, 32, 160})"

definition trim :: "string \<Rightarrow> string" where
  "trim s = rev (dropWhile isJsWhitespace (rev (dropWhile isJsWhitespace s)))"

definition lowerChar :: "char \<Rightarrow> char" where
  \<comment> \<open>A..Z and the capital letters of Latin-1 (U+00C0..U+00DE without U+00D7).\<close>
  "lowerChar c =
     (let n = (of_char c :: nat)
      in if (65 \<le> n \<and> n \<le> 90) \<or> (192 \<le> n \<and> n \<le> 222 \<and> n \<noteq> 215)
         then char_of (n + 32) else c)"

definition toLowerCase :: "string \<Rightarrow> string" where
  "toLowerCase s = map lowerChar s"

text \<open>Values thrown by the code or by a collaborator.\<close>

datatype js_error =
    TypeError
  | Error string
  | HttpError nat string

text \<open>
  The candidate handed to \<open>normalizeLanguage\<close> has the TypeScript type
  \<open>string | null | undefined | string[]\<close>.
\<close>

datatype lang_val = LNull | LUndefined | LStr string | LArr "string list"

text \<open>\<open>getCookie\<close> resolves to \<open>string | undefined | false\<close>.\<close>

datatype cookie_val = CFalse | CUndefined | CStr string

text \<open>
  The \<open>caches\<close> option is typed \<open>CacheType[] | false\<close>; the tests also pass a
  string (\<open>'aaa' as any\<close>), so a value that is not an array is kept with its truthiness.
\<close>

datatype caches_val = CachesArray "string list" | CachesOther bool

fun truthy_caches :: "caches_val \<Rightarrow> bool" where
  "truthy_caches (CachesArray xs) = True"
| "truthy_caches (CachesOther b) = b"

section \<open>Options\<close>

record options =
  order :: "string list"
  lookupQueryString :: string
  lookupCookie :: string
  lookupFromPathIndex :: int
  lookupFromHeaderKey :: string
  caches :: caches_val
  ignoreCase :: bool
  fallbackLanguage :: string
  supportedLanguages :: "string list"
  convertDetectedLanguage :: "(string \<Rightarrow> js_error + string) option"
  debug :: bool

definition DEFAULT_OPTIONS :: options where
  "DEFAULT_OPTIONS =
     \<lparr> order = [''querystring'', ''cookie'', ''header''],
       lookupQueryString = ''lang'',
       lookupCookie = ''language'',
       lookupFromPathIndex = 0,
       lookupFromHeaderKey = ''accept-language'',
       caches = CachesArray [''cookie''],
       ignoreCase = True,
       fallbackLanguage = ''en'',
       supportedLanguages = [''en''],
       convertDetectedLanguage = None,
       debug = False \<rparr>"

section \<open>Array primitives\<close>

fun js_find :: "('a \<Rightarrow> bool) \<Rightarrow> 'a list \<Rightarrow> 'a option" where
  "js_find p [] = None"
| "js_find p (x # xs) = (if p x then Some x else js_find p xs)"

fun indexOf :: "'a list \<Rightarrow> 'a \<Rightarrow> int" where
  "indexOf [] v = -1"
| "indexOf (x # xs) v =
     (if x = v then 0 else (let i = indexOf xs v in if i < 0 then -1 else i + 1))"

definition js_index :: "'a list \<Rightarrow> int \<Rightarrow> 'a option" where
  \<comment> \<open>\<open>xs[i]\<close>: \<open>undefined\<close> out of range.\<close>
  "js_index xs i = (if 0 \<le> i \<and> i < int (length xs) then Some (xs ! nat i) else None)"

section \<open>normalizeLanguage\<close>

definition normalizeLanguage :: "lang_val \<Rightarrow> options \<Rightarrow> string option" where
  "normalizeLanguage lang opts =
     (case lang of
        LNull \<Rightarrow> None
      | LUndefined \<Rightarrow> None
      | LArr xs \<Rightarrow> None
      | LStr s \<Rightarrow>
          if s = [] then None
          else
            (case (case convertDetectedLanguage opts of
                     None \<Rightarrow> Inr (trim s)
                   | Some f \<Rightarrow> f (trim s)) of
               Inl e \<Rightarrow> None
             | Inr normalizedLang \<Rightarrow>
                 (let compLang = (if ignoreCase opts then toLowerCase normalizedLang
                                  else normalizedLang);
                      compSupported = map (\<lambda>l. if ignoreCase opts then toLowerCase l else l)
                                          (supportedLanguages opts)
                  in case js_find (\<lambda>l. l = compLang) compSupported of
                       None \<Rightarrow> None
                     | Some matchedLang \<Rightarrow>
                         if matchedLang = [] then None
                         else js_index (supportedLanguages opts)
                                (indexOf compSupported matchedLang))))"

section \<open>The header-value parser\<close>

text \<open>
  \<open>index.ts\<close> imports \<open>parseAccept\<close> from \<open>./utils.ts\<close>, which is not among the
  sources; only its tests are. The parser is therefore written from the specification
  (section 4.1), and the choices the specification leaves open follow the tests.
\<close>

text \<open>
  Modelled from the spec: the numbers of the quality resolver of \<open>parseAccept\<close>
  (\<open>utils.ts\<close>, missing): not-a-number, the two infinities, or a finite value. A finite
  value is kept as the rational that the text denotes.
\<close>

datatype jsnum = NaN | PosInf | NegInf | Fin rat

text \<open>
  Modelled from the spec: the Entry of \<open>parseAccept\<close> (\<open>utils.ts\<close>, missing), with the
  field names of the tests.
\<close>

record entry =
  type :: string
  params :: "string \<rightharpoonup> string"
  q :: jsnum

text \<open>
  Modelled from the spec: the whitespace of \<open>parseAccept\<close> (\<open>utils.ts\<close>, missing) is space,
  tab and newline.
\<close>

definition isHeaderWs :: "char \<Rightarrow> bool" where
  "isHeaderWs c = (c = CHR '' '' \<or> c = CHR 0x09 \<or> c = CHR 0x0A)"

text \<open>
  Modelled from the spec: the trimming of \<open>parseAccept\<close> (\<open>utils.ts\<close>, missing), which
  removes leading and trailing whitespace.
\<close>

definition trimWs :: "string \<Rightarrow> string" where
  "trimWs s = rev (dropWhile isHeaderWs (rev (dropWhile isHeaderWs s)))"

text \<open>
  Modelled from the spec: the quote characters of \<open>parseAccept\<close> (\<open>utils.ts\<close>, missing),
  the double quote and the single quote.
\<close>

definition isQuote :: "char \<Rightarrow> bool" where
  "isQuote c = (c = CHR 0x22 \<or> c = CHR 0x27)"

text \<open>
  Modelled from the spec: the inside-quoted-span state of the scan of \<open>parseAccept\<close>
  (\<open>utils.ts\<close>, missing) after reading one character;
  a span opened by a quote character is closed by the next occurrence of the same one.
\<close>

fun quoteStep :: "char option \<Rightarrow> char \<Rightarrow> char option" where
  "quoteStep None c = (if isQuote c then Some c else None)"
| "quoteStep (Some opened) c = (if c = opened then None else Some opened)"

text \<open>
  Modelled from the spec: the quote-aware delimiter scan of \<open>parseAccept\<close>
  (\<open>utils.ts\<close>, missing). \<open>st\<close> is the quote state,
  \<open>cur\<close> the token read so far; a delimiter ends the token only outside a span.
\<close>

fun splitOutsideQuotes :: "char \<Rightarrow> char option \<Rightarrow> string \<Rightarrow> string \<Rightarrow> string list" where
  "splitOutsideQuotes d st cur [] = [cur]"
| "splitOutsideQuotes d st cur (c # cs) =
     (if st = None \<and> c = d then cur # splitOutsideQuotes d None [] cs
      else splitOutsideQuotes d (quoteStep st c) (cur @ [c]) cs)"

text \<open>
  Modelled from the spec: the parameter chunks of \<open>parseAccept\<close> (\<open>utils.ts\<close>, missing).
  A chunk is a key/value pair only when it holds exactly one
  equals sign and its key is not empty after trimming.
\<close>

definition parseParam :: "string \<Rightarrow> (string \<times> string) option" where
  "parseParam chunk =
     (if count_list chunk (CHR ''='') = 1
      then (let key = trimWs (takeWhile (\<lambda>c. c \<noteq> CHR ''='') chunk);
                val = trimWs (drop 1 (dropWhile (\<lambda>c. c \<noteq> CHR ''='') chunk))
            in if key = [] then None else Some (key, val))
      else None)"

text \<open>
  Modelled from the spec: the parameter mapping of \<open>parseAccept\<close> (\<open>utils.ts\<close>, missing);
  the last valid occurrence of a key wins.
\<close>

definition parseParams :: "string list \<Rightarrow> (string \<rightharpoonup> string)" where
  "parseParams chunks =
     foldl (\<lambda>m chunk. case parseParam chunk of None \<Rightarrow> m | Some (k, v) \<Rightarrow> m(k \<mapsto> v))
       Map.empty chunks"

subsection \<open>Quality values\<close>

text \<open>
  Modelled from the spec: the decimal digits and their value, for the numbers of
  \<open>parseAccept\<close> (\<open>utils.ts\<close>, missing).
\<close>

definition isDigit :: "char \<Rightarrow> bool" where
  "isDigit c = (48 \<le> (of_char c :: nat) \<and> (of_char c :: nat) \<le> 57)"

definition natOfDigits :: "string \<Rightarrow> nat" where
  "natOfDigits ds = foldl (\<lambda>a c. 10 * a + ((of_char c :: nat) - 48)) 0 ds"

text \<open>
  Modelled from the spec: the unsigned numbers that the quality resolver of
  \<open>parseAccept\<close> (\<open>utils.ts\<close>, missing) accepts, decimals and the token for infinity.
\<close>

definition unsignedNumber :: "string \<Rightarrow> jsnum" where
  "unsignedNumber s =
     (if s = ''Infinity'' then PosInf
      else (let ip = takeWhile isDigit s; rest = dropWhile isDigit s
            in case rest of
                 [] \<Rightarrow> if ip = [] then NaN else Fin (of_nat (natOfDigits ip))
               | c # fp \<Rightarrow>
                   if c = CHR ''.'' \<and> list_all isDigit fp \<and> (ip \<noteq> [] \<or> fp \<noteq> [])
                   then Fin (of_nat (natOfDigits ip)
                             + of_nat (natOfDigits fp) / 10 ^ length fp)
                   else NaN))"

text \<open>
  Modelled from the spec: the sign of a number of \<open>parseAccept\<close> (\<open>utils.ts\<close>, missing).
\<close>

fun negate :: "jsnum \<Rightarrow> jsnum" where
  "negate NaN = NaN"
| "negate PosInf = NegInf"
| "negate NegInf = PosInf"
| "negate (Fin r) = Fin (- r)"

text \<open>
  Modelled from the spec: the interpretation of a text as a number by the quality resolver
  of \<open>parseAccept\<close> (\<open>utils.ts\<close>, missing), accepting a sign,
  decimals and the infinity tokens; any other text, the token \<open>NaN\<close> included, is
  not a number.
\<close>

definition toNumber :: "string \<Rightarrow> jsnum" where
  "toNumber s =
     (case s of
        [] \<Rightarrow> NaN
      | c # cs \<Rightarrow>
          if c = CHR ''-'' then negate (unsignedNumber cs)
          else if c = CHR ''+'' then unsignedNumber cs
          else unsignedNumber s)"

text \<open>
  Modelled from the spec: the comparison \<open><\<close> of the numbers of \<open>parseAccept\<close>
  (\<open>utils.ts\<close>, missing), false when a side is not a number.
\<close>

fun num_less :: "jsnum \<Rightarrow> jsnum \<Rightarrow> bool" where
  "num_less NaN b = False"
| "num_less a NaN = False"
| "num_less PosInf b = False"
| "num_less NegInf NegInf = False"
| "num_less NegInf b = True"
| "num_less (Fin x) PosInf = True"
| "num_less (Fin x) NegInf = False"
| "num_less (Fin x) (Fin y) = (x < y)"

text \<open>
  Modelled from the spec: the clamping of the quality resolver of \<open>parseAccept\<close>
  (\<open>utils.ts\<close>, missing): above 1 becomes 1, below 0 becomes 0.
\<close>

definition clamp01 :: "jsnum \<Rightarrow> jsnum" where
  "clamp01 n = (if num_less (Fin 1) n then Fin 1 else if num_less n (Fin 0) then Fin 0 else n)"

text \<open>
  Modelled from the spec: the QualityResolver of \<open>parseAccept\<close> (\<open>utils.ts\<close>, missing),
  steps 1 to 4.
\<close>

definition resolveQuality :: "string option \<Rightarrow> jsnum" where
  "resolveQuality qVal =
     (case qVal of
        None \<Rightarrow> Fin 1
      | Some v \<Rightarrow>
          if v = [] then Fin 1
          else (let n = toNumber v in if n = NaN then Fin 1 else clamp01 n))"

subsection \<open>Entries and their order\<close>

text \<open>
  Modelled from the spec: one entry of \<open>parseAccept\<close> (\<open>utils.ts\<close>, missing): a leading
  type token, then parameter chunks split on \<open>;\<close>.
  An item whose type token is empty is dropped, as the test on consecutive
  delimiters expects.
\<close>

definition parseEntry :: "string \<Rightarrow> entry option" where
  "parseEntry item =
     (case splitOutsideQuotes (CHR '';'') None [] item of
        [] \<Rightarrow> None
      | t # chunks \<Rightarrow>
          (let ty = trimWs t
           in if ty = [] then None
              else (let ps = parseParams chunks
                    in Some \<lparr> type = ty, params = ps, q = resolveQuality (ps ''q'') \<rparr>)))"

text \<open>
  Modelled from the spec: the entries of \<open>parseAccept\<close> (\<open>utils.ts\<close>, missing) in their
  order of appearance.
\<close>

definition parseEntries :: "string \<Rightarrow> entry list" where
  "parseEntries s = List.map_filter parseEntry (splitOutsideQuotes (CHR '','') None [] s)"

text \<open>
  Modelled from the spec: the insertion step of the sort of \<open>parseAccept\<close>
  (\<open>utils.ts\<close>, missing). An entry goes in front of the first one whose quality is
  not greater than its own.
\<close>

fun insertByQuality :: "entry \<Rightarrow> entry list \<Rightarrow> entry list" where
  "insertByQuality x [] = [x]"
| "insertByQuality x (y # ys) =
     (if num_less (q x) (q y) then y # insertByQuality x ys else x # y # ys)"

text \<open>
  Modelled from the spec: the stable sort by descending quality of \<open>parseAccept\<close>
  (\<open>utils.ts\<close>, missing).
\<close>

fun sortByQuality :: "entry list \<Rightarrow> entry list" where
  "sortByQuality [] = []"
| "sortByQuality (x # xs) = insertByQuality x (sortByQuality xs)"

text \<open>
  Modelled from the spec: \<open>parseAccept\<close> of the missing \<open>utils.ts\<close>. An absent or empty
  input gives the empty result; otherwise the entries are sorted by quality.
\<close>

definition parseAccept :: "string option \<Rightarrow> entry list" where
  "parseAccept header =
     (case header of
        None \<Rightarrow> []
      | Some s \<Rightarrow> if s = [] then [] else sortByQuality (parseEntries s))"

section \<open>The request context and its observable effects\<close>

text \<open>
  The collaborators of \<open>HoaContext\<close> that the middleware uses. Each may throw; the cookie
  accessors are added by a plugin and may be missing. \<open>ctx.throw\<close> is Hoa's own and
  raises an HTTP error with the given status.
\<close>

record ctx =
  query :: "js_error + (string \<Rightarrow> lang_val)"
  getCookie :: "(string \<Rightarrow> js_error + cookie_val) option"
  get :: "string \<Rightarrow> js_error + string option"
  pathname :: "js_error + string"
  setCookie :: "(string \<Rightarrow> string \<Rightarrow> js_error + unit) option"

text \<open>
  What a request does to the outside is kept as a trace: every call of a collaborator and
  every console message, in the order of execution.
\<close>

datatype event =
    QueryRead string
  | CookieRead string
  | HeaderRead string
  | PathRead
  | CookieWrite string string
  | ConsoleLog string
  | ConsoleError string "js_error option"
  | NextCalled

fun truthy :: "string option \<Rightarrow> bool" where
  \<comment> \<open>Truthiness of a \<open>string | undefined\<close>.\<close>
  "truthy None = False"
| "truthy (Some s) = (s \<noteq> [])"

section \<open>Detection strategies\<close>

definition parseAcceptLanguage :: "string \<Rightarrow> (string \<times> jsnum) list" where
  "parseAcceptLanguage header = map (\<lambda>e. (type e, q e)) (parseAccept (Some header))"

definition detectFromQuery :: "ctx \<Rightarrow> options \<Rightarrow> (js_error + string option) \<times> event list" where
  "detectFromQuery c opts =
     (case query c of
        Inl e \<Rightarrow> (Inl e, [QueryRead (lookupQueryString opts)])
      | Inr qm \<Rightarrow>
          (Inr (normalizeLanguage (qm (lookupQueryString opts)) opts),
           [QueryRead (lookupQueryString opts)]))"

definition detectFromCookie :: "ctx \<Rightarrow> options \<Rightarrow> (js_error + string option) \<times> event list" where
  "detectFromCookie c opts =
     (case getCookie c of
        None \<Rightarrow> (Inl TypeError, [])
      | Some f \<Rightarrow>
          (case f (lookupCookie opts) of
             Inl e \<Rightarrow> (Inl e, [CookieRead (lookupCookie opts)])
           | Inr cookie \<Rightarrow>
               (case cookie of
                  CFalse \<Rightarrow> (Inr None, [CookieRead (lookupCookie opts)])
                | CUndefined \<Rightarrow>
                    (Inr (normalizeLanguage LUndefined opts), [CookieRead (lookupCookie opts)])
                | CStr s \<Rightarrow>
                    (Inr (normalizeLanguage (LStr s) opts), [CookieRead (lookupCookie opts)]))))"

fun firstNormalized :: "(string \<times> jsnum) list \<Rightarrow> options \<Rightarrow> string option" where
  \<comment> \<open>The \<open>for\<close> loop of \<open>detectFromHeader\<close>.\<close>
  "firstNormalized [] opts = None"
| "firstNormalized ((lang, qv) # rest) opts =
     (let normalizedLang = normalizeLanguage (LStr lang) opts
      in if truthy normalizedLang then normalizedLang else firstNormalized rest opts)"

definition detectFromHeader :: "ctx \<Rightarrow> options \<Rightarrow> (js_error + string option) \<times> event list" where
  "detectFromHeader c opts =
     (case get c (lookupFromHeaderKey opts) of
        Inl e \<Rightarrow> (Inl e, [HeaderRead (lookupFromHeaderKey opts)])
      | Inr acceptLanguage \<Rightarrow>
          (case acceptLanguage of
             None \<Rightarrow> (Inr None, [HeaderRead (lookupFromHeaderKey opts)])
           | Some h \<Rightarrow>
               if h = [] then (Inr None, [HeaderRead (lookupFromHeaderKey opts)])
               else (Inr (firstNormalized (parseAcceptLanguage h) opts),
                     [HeaderRead (lookupFromHeaderKey opts)])))"

fun js_split :: "char \<Rightarrow> string \<Rightarrow> string \<Rightarrow> string list" where
  \<comment> \<open>\<open>s.split(d)\<close> for a one-character separator; \<open>cur\<close> is the piece read so far.\<close>
  "js_split d cur [] = [cur]"
| "js_split d cur (c # cs) =
     (if c = d then cur # js_split d [] cs else js_split d (cur @ [c]) cs)"

definition detectFromPath :: "ctx \<Rightarrow> options \<Rightarrow> (js_error + string option) \<times> event list" where
  "detectFromPath c opts =
     (case pathname c of
        Inl e \<Rightarrow> (Inl e, [PathRead])
      | Inr p \<Rightarrow>
          (let pathSegments = filter (\<lambda>seg. seg \<noteq> []) (js_split (CHR ''/'') [] p);
               langSegment = js_index pathSegments (lookupFromPathIndex opts)
           in (Inr (normalizeLanguage
                      (case langSegment of None \<Rightarrow> LUndefined | Some seg \<Rightarrow> LStr seg) opts),
               [PathRead])))"

definition detectorKeys :: "string list" where
  \<comment> \<open>\<open>Object.keys(detectors)\<close>.\<close>
  "detectorKeys = [''querystring'', ''cookie'', ''header'', ''path'']"

definition detectors ::
  "string \<Rightarrow> (ctx \<Rightarrow> options \<Rightarrow> (js_error + string option) \<times> event list) option" where
  "detectors name =
     (if name = ''querystring'' then Some detectFromQuery
      else if name = ''cookie'' then Some detectFromCookie
      else if name = ''header'' then Some detectFromHeader
      else if name = ''path'' then Some detectFromPath
      else None)"

section \<open>The negotiation pipeline\<close>

definition runDetector ::
  "string \<Rightarrow> ctx \<Rightarrow> options \<Rightarrow> (js_error + string option) \<times> event list" where
  \<comment> \<open>\<open>detectors[detectorName](ctx, options)\<close>; calling a missing entry is a TypeError.
      \<open>validateOptions\<close> admits the four own keys only, so names that an object
      inherits (\<open>toString\<close> and the like) never reach this point.\<close>
  "runDetector name c opts =
     (case detectors name of None \<Rightarrow> (Inl TypeError, []) | Some d \<Rightarrow> d c opts)"

fun detectLoop ::
  "string list \<Rightarrow> ctx \<Rightarrow> options \<Rightarrow> string option \<Rightarrow> string option \<times> event list" where
  \<comment> \<open>The \<open>for\<close> loop of \<open>detectLanguage\<close>; the last argument is the variable
      \<open>detectedLang\<close>.\<close>
  "detectLoop [] c opts detectedLang = (detectedLang, [])"
| "detectLoop (detectorName # rest) c opts detectedLang =
     (case runDetector detectorName c opts of
        (Inl err, evs) \<Rightarrow>
          (let (r, evs') = detectLoop rest c opts detectedLang
           in (r, evs
                  @ (if debug opts
                     then [ConsoleError (''Error in '' @ detectorName @ '' detector:'') (Some err)]
                     else [])
                  @ evs'))
      | (Inr l, evs) \<Rightarrow>
          if truthy l
          then (l, evs
                   @ (if debug opts
                      then [ConsoleLog (''Language detected from '' @ detectorName @ '': ''
                                        @ (case l of None \<Rightarrow> [] | Some s \<Rightarrow> s))]
                      else []))
          else (let (r, evs') = detectLoop rest c opts l in (r, evs @ evs')))"

definition cacheLanguage :: "ctx \<Rightarrow> string \<Rightarrow> options \<Rightarrow> event list" where
  "cacheLanguage c lang opts =
     (case caches opts of
        CachesOther b \<Rightarrow> []
      | CachesArray xs \<Rightarrow>
          if ''cookie'' \<notin> set xs then []
          else
            (case setCookie c of
               None \<Rightarrow>
                 (if debug opts then [ConsoleError ''Failed to cache language:'' (Some TypeError)]
                  else [])
             | Some f \<Rightarrow>
                 (case f (lookupCookie opts) lang of
                    Inl err \<Rightarrow>
                      CookieWrite (lookupCookie opts) lang
                      # (if debug opts
                         then [ConsoleError ''Failed to cache language:'' (Some err)]
                         else [])
                  | Inr u \<Rightarrow> [CookieWrite (lookupCookie opts) lang])))"

definition detectLanguage :: "ctx \<Rightarrow> options \<Rightarrow> string \<times> event list" where
  "detectLanguage c opts =
     (let (detectedLang, evs1) = detectLoop (order opts) c opts None;
          evs2 = (if \<not> truthy detectedLang \<and> debug opts
                  then [ConsoleError ''Language detection failed'' None] else []);
          finalLang = (case detectedLang of
                         None \<Rightarrow> fallbackLanguage opts
                       | Some l \<Rightarrow> if l = [] then fallbackLanguage opts else l);
          evs3 = (if truthy detectedLang \<and> truthy_caches (caches opts)
                  then cacheLanguage c finalLang opts else [])
      in (finalLang, evs1 @ evs2 @ evs3))"

section \<open>The middleware and its construction\<close>

definition validateOptions :: "options \<Rightarrow> js_error + unit" where
  "validateOptions opts =
     (if fallbackLanguage opts \<notin> set (supportedLanguages opts)
      then Inl (Error ''Fallback language must be included in supported languages'')
      else if lookupFromPathIndex opts < 0
      then Inl (Error ''Path index must be non-negative'')
      else if \<not> list_all (\<lambda>detector. detector \<in> set detectorKeys) (order opts)
      then Inl (Error ''Invalid detector type in order array'')
      else Inr ())"

definition validateCookiePlugin :: "ctx \<Rightarrow> js_error + unit" where
  "validateCookiePlugin c =
     (if Option.is_none (getCookie c) \<or> Option.is_none (setCookie c)
      then Inl (HttpError 500 ''Cookie plugin (eg: @hoajs/cookie) is required'')
      else Inr ())"

text \<open>
  The outcome of one run of the middleware: the value thrown, if any, the value stored in
  \<open>ctx.language\<close>, if it was set, and the trace. \<open>nxt\<close> is the outcome of the
  downstream \<open>next()\<close>.
\<close>

record mw_result =
  thrown :: "js_error option"
  ctx_language :: "string option"
  trace :: "event list"

definition languageMiddleware :: "options \<Rightarrow> ctx \<Rightarrow> (js_error + unit) \<Rightarrow> mw_result" where
  "languageMiddleware opts c nxt =
     (case validateCookiePlugin c of
        Inl e \<Rightarrow> \<lparr> thrown = Some e, ctx_language = None, trace = [] \<rparr>
      | Inr u \<Rightarrow>
          (let (lang, evs) = detectLanguage c opts
           in \<lparr> thrown = (case nxt of Inl e \<Rightarrow> Some e | Inr v \<Rightarrow> None),
                ctx_language = Some lang,
                trace = evs @ [NextCalled] \<rparr>))"

text \<open>
  \<open>Partial<DetectorOptions>\<close>: each key is present or not, and the spread
  \<open>{...DEFAULT_OPTIONS, ...userOptions}\<close> takes the user's value where the key is present.
\<close>

record user_options =
  u_order :: "string list option"
  u_lookupQueryString :: "string option"
  u_lookupCookie :: "string option"
  u_lookupFromPathIndex :: "int option"
  u_lookupFromHeaderKey :: "string option"
  u_caches :: "caches_val option"
  u_ignoreCase :: "bool option"
  u_fallbackLanguage :: "string option"
  u_supportedLanguages :: "string list option"
  u_convertDetectedLanguage :: "(string \<Rightarrow> js_error + string) option"
  u_debug :: "bool option"

definition mergeOptions :: "user_options \<Rightarrow> options" where
  "mergeOptions u =
     \<lparr> order = (case u_order u of None \<Rightarrow> order DEFAULT_OPTIONS | Some v \<Rightarrow> v),
       lookupQueryString =
         (case u_lookupQueryString u of None \<Rightarrow> lookupQueryString DEFAULT_OPTIONS | Some v \<Rightarrow> v),
       lookupCookie =
         (case u_lookupCookie u of None \<Rightarrow> lookupCookie DEFAULT_OPTIONS | Some v \<Rightarrow> v),
       lookupFromPathIndex =
         (case u_lookupFromPathIndex u of
            None \<Rightarrow> lookupFromPathIndex DEFAULT_OPTIONS | Some v \<Rightarrow> v),
       lookupFromHeaderKey =
         (case u_lookupFromHeaderKey u of
            None \<Rightarrow> lookupFromHeaderKey DEFAULT_OPTIONS | Some v \<Rightarrow> v),
       caches = (case u_caches u of None \<Rightarrow> caches DEFAULT_OPTIONS | Some v \<Rightarrow> v),
       ignoreCase = (case u_ignoreCase u of None \<Rightarrow> ignoreCase DEFAULT_OPTIONS | Some v \<Rightarrow> v),
       fallbackLanguage =
         (case u_fallbackLanguage u of None \<Rightarrow> fallbackLanguage DEFAULT_OPTIONS | Some v \<Rightarrow> v),
       supportedLanguages =
         (case u_supportedLanguages u of
            None \<Rightarrow> supportedLanguages DEFAULT_OPTIONS | Some v \<Rightarrow> v),
       convertDetectedLanguage =
         (case u_convertDetectedLanguage u of
            None \<Rightarrow> convertDetectedLanguage DEFAULT_OPTIONS | Some f \<Rightarrow> Some f),
       debug = (case u_debug u of None \<Rightarrow> debug DEFAULT_OPTIONS | Some v \<Rightarrow> v) \<rparr>"

definition language ::
  "user_options \<Rightarrow> js_error + (ctx \<Rightarrow> (js_error + unit) \<Rightarrow> mw_result)" where
  "language userOptions =
     (let opts = mergeOptions userOptions
      in case validateOptions opts of
           Inl e \<Rightarrow> Inl e
         | Inr u \<Rightarrow> Inr (languageMiddleware opts))"

section \<open>Vocabulary of the properties\<close>

text \<open>A strategy succeeds when it returns, without throwing, a truthy language.\<close>

definition detectorSucceeds :: "(js_error + string option) \<times> event list \<Rightarrow> bool" where
  "detectorSucceeds r = (case fst r of Inl e \<Rightarrow> False | Inr l \<Rightarrow> truthy l)"

text \<open>The events that are calls of a request collaborator by a strategy.\<close>

fun isRead :: "event \<Rightarrow> bool" where
  "isRead (QueryRead k) = True"
| "isRead (CookieRead k) = True"
| "isRead (HeaderRead k) = True"
| "isRead PathRead = True"
| "isRead ev = False"

text \<open>The cookie writes of a trace, in order, as pairs of name and value.\<close>

fun cookieWrites :: "event list \<Rightarrow> (string \<times> string) list" where
  "cookieWrites [] = []"
| "cookieWrites (CookieWrite k v # evs) = (k, v) # cookieWrites evs"
| "cookieWrites (ev # evs) = cookieWrites evs"

text \<open>The \<open>caches\<close> option is an array that contains \<open>'cookie'\<close>.\<close>

fun cachesEnabled :: "caches_val \<Rightarrow> bool" where
  "cachesEnabled (CachesArray xs) = (''cookie'' \<in> set xs)"
| "cachesEnabled (CachesOther b) = False"

text \<open>The order \<open>\<ge>\<close> of JavaScript numbers, and finiteness.\<close>

definition num_ge :: "jsnum \<Rightarrow> jsnum \<Rightarrow> bool" where
  "num_ge a b = (num_less b a \<or> a = b)"

definition isFinite :: "jsnum \<Rightarrow> bool" where
  "isFinite n = (case n of Fin r \<Rightarrow> True | _ \<Rightarrow> False)"



section \<open>Example configurations and requests\<close>

text \<open>
  The fixtures of the test suite: three supported languages, hooks, and request contexts
  given by one query parameter, one cookie and one header.
\<close>

definition testOptions :: options where
  "testOptions = DEFAULT_OPTIONS\<lparr> supportedLanguages := [''en'', ''fr'', ''es''] \<rparr>"

definition cookieFreeOptions :: options where
  "cookieFreeOptions =
     testOptions\<lparr> order := [''querystring'', ''path''], caches := CachesOther False \<rparr>"

definition throwingHook :: "string \<Rightarrow> js_error + string" where
  \<comment> \<open>\<open>() => { throw new Error('Conversion error') }\<close>\<close>
  "throwingHook lang = Inl (Error ''Conversion error'')"

definition emptyHook :: "string \<Rightarrow> js_error + string" where
  \<comment> \<open>a hook that returns the empty string\<close>
  "emptyHook lang = Inr []"

definition emptyHookOptions :: options where
  "emptyHookOptions =
     testOptions\<lparr> convertDetectedLanguage := Some emptyHook,
                  supportedLanguages := [[], ''en''] \<rparr>"

definition defaultingHook :: "string \<Rightarrow> js_error + string" where
  \<comment> \<open>\<open>(lang) => lang || 'en'\<close>\<close>
  "defaultingHook lang = (if lang = [] then Inr ''en'' else Inr lang)"

definition queryOf :: "string \<Rightarrow> string \<Rightarrow> string \<Rightarrow> lang_val" where
  "queryOf key val k = (if k = key then LStr val else LUndefined)"

definition cookieOf :: "string \<Rightarrow> string \<Rightarrow> string \<Rightarrow> js_error + cookie_val" where
  "cookieOf key val k = (if k = key then Inr (CStr val) else Inr CUndefined)"

definition headerOf :: "string \<Rightarrow> string \<Rightarrow> string \<Rightarrow> js_error + string option" where
  "headerOf key val k = (if k = key then Inr (Some val) else Inr None)"

definition cookieStore :: "string \<Rightarrow> string \<Rightarrow> js_error + unit" where
  "cookieStore k v = Inr ()"

definition failingStore :: "string \<Rightarrow> string \<Rightarrow> js_error + unit" where
  \<comment> \<open>\<open>async () => { throw new Error('Cache failed') }\<close>\<close>
  "failingStore k v = Inl (Error ''Cache failed'')"

definition brokenQueryCtx :: ctx where
  "brokenQueryCtx =
     \<lparr> query = Inl TypeError,
       getCookie = Some (cookieOf ''language'' ''fr''),
       get = headerOf ''accept-language'' ''en'',
       pathname = Inr ''/'',
       setCookie = Some cookieStore \<rparr>"

definition allFailCtx :: ctx where
  "allFailCtx =
     \<lparr> query = Inr (queryOf ''lang'' ''de''),
       getCookie = Some (cookieOf ''language'' ''it''),
       get = headerOf ''accept-language'' ''pt'',
       pathname = Inr ''/'',
       setCookie = Some cookieStore \<rparr>"

definition cacheFailCtx :: ctx where
  "cacheFailCtx =
     \<lparr> query = Inr (queryOf ''lang'' ''fr''),
       getCookie = Some (cookieOf ''language'' ''es''),
       get = headerOf ''accept-language'' ''en'',
       pathname = Inr ''/'',
       setCookie = Some failingStore \<rparr>"

definition noPluginCtx :: ctx where
  "noPluginCtx =
     \<lparr> query = Inr (queryOf ''lang'' ''fr''),
       getCookie = None,
       get = headerOf ''accept-language'' ''en'',
       pathname = Inr ''/fr/test'',
       setCookie = None \<rparr>"

definition unsupportedFallback :: user_options where
  "unsupportedFallback =
     \<lparr> u_order = None, u_lookupQueryString = None, u_lookupCookie = None,
       u_lookupFromPathIndex = None, u_lookupFromHeaderKey = None, u_caches = None,
       u_ignoreCase = None, u_fallbackLanguage = Some ''de'',
       u_supportedLanguages = Some [''en'', ''fr''],
       u_convertDetectedLanguage = None, u_debug = None \<rparr>"

definition negativePathIndex :: user_options where
  "negativePathIndex =
     unsupportedFallback\<lparr> u_fallbackLanguage := Some ''en'', u_lookupFromPathIndex := Some (- 1) \<rparr>"

definition invalidDetector :: user_options where
  "invalidDetector =
     unsupportedFallback\<lparr> u_fallbackLanguage := Some ''en'', u_order := Some [''invalid''] \<rparr>"

definition validUserOptions :: user_options where
  "validUserOptions = unsupportedFallback\<lparr> u_fallbackLanguage := Some ''en'' \<rparr>"

definition semiColonHeader :: string where
  \<comment> \<open>\<open>type;d="semi;colon"\<close>\<close>
  "semiColonHeader = ''type;d='' @ [CHR 0x22] @ ''semi;colon'' @ [CHR 0x22]"

section \<open>Evaluation of the fixtures\<close>

lemmas fixture_defs = testOptions_def cookieFreeOptions_def DEFAULT_OPTIONS_def throwingHook_def
  emptyHook_def emptyHookOptions_def defaultingHook_def queryOf_def cookieOf_def headerOf_def cookieStore_def failingStore_def
  brokenQueryCtx_def allFailCtx_def cacheFailCtx_def noPluginCtx_def unsupportedFallback_def
  negativePathIndex_def invalidDetector_def validUserOptions_def semiColonHeader_def

lemmas string_defs = trim_def isJsWhitespace_def toLowerCase_def lowerChar_def char_of_def
  bit_Suc_0_iff

lemmas detector_defs = runDetector_def detectors_def detectFromQuery_def detectFromCookie_def
  detectFromHeader_def detectFromPath_def normalizeLanguage_def js_index_def detectorSucceeds_def

lemmas parser_defs = parseAccept_def parseEntries_def parseEntry_def List.map_filter_def
  trimWs_def isHeaderWs_def isQuote_def parseParams_def parseParam_def resolveQuality_def
  toNumber_def unsignedNumber_def isDigit_def natOfDigits_def clamp01_def

section \<open>Properties of normalizeLanguage\<close>

lemma js_find_eq: "js_find (\<lambda>l. l = v) xs = (if v \<in> set xs then Some v else None)"
  by (induction xs) auto

lemma indexOf_mem:
  "v \<in> set xs \<Longrightarrow> 0 \<le> indexOf xs v \<and> indexOf xs v < int (length xs) \<and> xs ! nat (indexOf xs v) = v"
  by (induction xs) (auto simp: Let_def nat_add_distrib)

lemma find_map_index:
  "f c \<in> set (map f xs) \<Longrightarrow>
     js_index xs (indexOf (map f xs) (f c)) = List.find (\<lambda>l. f l = f c) xs"
proof (induction xs)
  case Nil then show ?case by simp
next
  case (Cons x xs)
  show ?case
  proof (cases "f x = f c")
    case True then show ?thesis by (simp add: js_index_def)
  next
    case False
    with Cons.prems have m: "f c \<in> set (map f xs)" by auto
    from indexOf_mem[OF m] have b: "0 \<le> indexOf (map f xs) (f c)"
      "indexOf (map f xs) (f c) < int (length xs)" by simp_all
    have "js_index (x # xs) (indexOf (map f xs) (f c) + 1) = js_index xs (indexOf (map f xs) (f c))"
      using b by (simp add: js_index_def nat_add_distrib)
    then show ?thesis using False Cons.IH[OF m] b by (simp add: Let_def)
  qed
qed

lemma normalizeLanguage_str:
  assumes "s \<noteq> []"
    and "(case convertDetectedLanguage opts of None \<Rightarrow> Inr (trim s) | Some f \<Rightarrow> f (trim s)) = Inr cand"
    and "cf = (\<lambda>l. if ignoreCase opts then toLowerCase l else l)"
  shows "normalizeLanguage (LStr s) opts =
           (if cf cand = [] then None
            else List.find (\<lambda>l. cf l = cf cand) (supportedLanguages opts))"
proof -
  have nl: "normalizeLanguage (LStr s) opts =
          (case js_find (\<lambda>l. l = cf cand) (map cf (supportedLanguages opts)) of
             None \<Rightarrow> None
           | Some m \<Rightarrow> if m = [] then None
                       else js_index (supportedLanguages opts)
                              (indexOf (map cf (supportedLanguages opts)) m))"
    using assms(1,2) unfolding normalizeLanguage_def assms(3) by (simp add: Let_def)
  show ?thesis
  proof (cases "cf cand \<in> set (map cf (supportedLanguages opts))")
    case True
    then show ?thesis using find_map_index[OF True] by (simp add: nl js_find_eq)
  next
    case False
    then have "List.find (\<lambda>l. cf l = cf cand) (supportedLanguages opts) = None"
      unfolding find_None_iff by (metis image_eqI set_map)
    then show ?thesis using False by (simp add: nl js_find_eq)
  qed
qed

lemma dropWhile_all: "list_all P s \<Longrightarrow> dropWhile P s = []"
  by (induction s) simp_all

lemma trim_ws_only: "list_all isJsWhitespace s \<Longrightarrow> trim s = []"
  by (simp add: trim_def dropWhile_all)

text \<open>
  Claim C4, amended. \<open>normalizeLanguage\<close> returns absent for \<open>null\<close>, \<open>undefined\<close>,
  the empty string and an array. A whitespace-only string gives absent when no conversion
  hook is configured. When the hook throws, the result is absent. Otherwise the trimmed,
  possibly converted candidate is compared with the supported languages, both sides in
  lower case when \<open>ignoreCase\<close> is set: a candidate that is empty at that point gives
  absent, and any other gives the first supported language that matches, exactly as
  stored, or absent when none does.
\<close>

theorem normalizeLanguage_contract:
  "(lang = LNull \<or> lang = LUndefined \<or> lang = LStr [] \<or> lang = LArr xs
      \<longrightarrow> normalizeLanguage lang opts = None)
   \<and> (list_all isJsWhitespace s \<and> convertDetectedLanguage opts = None
      \<longrightarrow> normalizeLanguage (LStr s) opts = None)
   \<and> (convertDetectedLanguage opts = Some f \<and> f (trim s) = Inl err
      \<longrightarrow> normalizeLanguage (LStr s) opts = None)
   \<and> (s \<noteq> []
        \<and> (case convertDetectedLanguage opts of None \<Rightarrow> Inr (trim s) | Some f \<Rightarrow> f (trim s))
            = Inr cand
        \<and> cf = (\<lambda>l. if ignoreCase opts then toLowerCase l else l)
      \<longrightarrow> normalizeLanguage (LStr s) opts
            = (if cf cand = [] then None
               else List.find (\<lambda>l. cf l = cf cand) (supportedLanguages opts)))"
proof (intro conjI impI)
  assume "lang = LNull \<or> lang = LUndefined \<or> lang = LStr [] \<or> lang = LArr xs"
  then show "normalizeLanguage lang opts = None"
    by (auto simp: normalizeLanguage_def)
next
  assume a: "list_all isJsWhitespace s \<and> convertDetectedLanguage opts = None"
  show "normalizeLanguage (LStr s) opts = None"
  proof (cases "s = []")
    case True then show ?thesis by (simp add: normalizeLanguage_def)
  next
    case False
    have c: "(case convertDetectedLanguage opts of None \<Rightarrow> Inr (trim s) | Some f \<Rightarrow> f (trim s))
               = Inr []"
      using a by (simp add: trim_ws_only)
    show ?thesis using normalizeLanguage_str[OF False c refl] by (simp add: toLowerCase_def)
  qed
next
  assume "convertDetectedLanguage opts = Some f \<and> f (trim s) = Inl err"
  then show "normalizeLanguage (LStr s) opts = None"
    by (simp add: normalizeLanguage_def)
next
  assume a: "s \<noteq> []
        \<and> (case convertDetectedLanguage opts of None \<Rightarrow> Inr (trim s) | Some f \<Rightarrow> f (trim s))
            = Inr cand
        \<and> cf = (\<lambda>l. if ignoreCase opts then toLowerCase l else l)"
  then have ne: "s \<noteq> []"
    and cv: "(case convertDetectedLanguage opts of None \<Rightarrow> Inr (trim s) | Some f \<Rightarrow> f (trim s))
               = Inr cand"
    and cf: "cf = (\<lambda>l. if ignoreCase opts then toLowerCase l else l)"
    by blast+
  show "normalizeLanguage (LStr s) opts
            = (if cf cand = [] then None
               else List.find (\<lambda>l. cf l = cf cand) (supportedLanguages opts))"
    using ne cv cf by (rule normalizeLanguage_str)
qed

text \<open>
  The parts at the inputs of the test suite: an array, three spaces, a throwing hook,
  and \<open>'  FR '\<close>, which is returned as the stored \<open>'fr'\<close>; and a hook that returns
  the empty string, which gives absent even when the empty string is a supported language.
\<close>

theorem normalizeLanguage_contract_witness:
  "normalizeLanguage (LArr [''en'', ''fr'']) testOptions = None
   \<and> normalizeLanguage (LStr ''   '') testOptions = None
   \<and> normalizeLanguage (LStr ''fr'') (testOptions\<lparr>convertDetectedLanguage := Some throwingHook\<rparr>)
       = None
   \<and> normalizeLanguage (LStr ''  FR '') testOptions = Some ''fr''
   \<and> normalizeLanguage (LStr ''fr'') emptyHookOptions = None"
proof (intro conjI)
  show "normalizeLanguage (LArr [''en'', ''fr'']) testOptions = None"
    using normalizeLanguage_contract[where lang = "LArr [''en'', ''fr'']" and xs = "[''en'', ''fr'']"
        and opts = testOptions]
    by simp
  have ws: "list_all isJsWhitespace ''   '' \<and> convertDetectedLanguage testOptions = None"
    by (simp add: fixture_defs string_defs)
  show "normalizeLanguage (LStr ''   '') testOptions = None"
    using normalizeLanguage_contract[where s = "''   ''" and opts = testOptions] ws by blast
  have th: "convertDetectedLanguage (testOptions\<lparr>convertDetectedLanguage := Some throwingHook\<rparr>)
              = Some throwingHook
            \<and> throwingHook (trim ''fr'') = Inl (Error ''Conversion error'')"
    by (simp add: throwingHook_def)
  show "normalizeLanguage (LStr ''fr'') (testOptions\<lparr>convertDetectedLanguage := Some throwingHook\<rparr>)
          = None"
    using normalizeLanguage_contract[where s = "''fr''" and f = throwingHook
        and err = "Error ''Conversion error''"
        and opts = "testOptions\<lparr>convertDetectedLanguage := Some throwingHook\<rparr>"] th
    by blast
  have m1: "''  FR '' \<noteq> []
      \<and> (case convertDetectedLanguage testOptions of None \<Rightarrow> Inr (trim ''  FR '')
          | Some f \<Rightarrow> f (trim ''  FR '')) = Inr ''FR''"
    by (simp add: fixture_defs trim_def isJsWhitespace_def)
  have m2: "toLowerCase = (\<lambda>l. if ignoreCase testOptions then toLowerCase l else l)"
    by (simp add: testOptions_def DEFAULT_OPTIONS_def)
  note m = conjI[OF m1 m2]
  have f: "(if toLowerCase ''FR'' = [] then None
            else List.find (\<lambda>l. toLowerCase l = toLowerCase ''FR'') (supportedLanguages testOptions))
             = Some ''fr''"
    by (simp add: fixture_defs string_defs)
  have "normalizeLanguage (LStr ''  FR '') testOptions
          = (if toLowerCase ''FR'' = [] then None
             else List.find (\<lambda>l. toLowerCase l = toLowerCase ''FR'') (supportedLanguages testOptions))"
    using normalizeLanguage_contract[where s = "''  FR ''" and cand = "''FR''"
        and cf = toLowerCase and opts = testOptions] m
    by blast
  then show "normalizeLanguage (LStr ''  FR '') testOptions = Some ''fr''"
    using f by simp
  have e1: "''fr'' \<noteq> []
      \<and> (case convertDetectedLanguage emptyHookOptions of None \<Rightarrow> Inr (trim ''fr'')
          | Some f \<Rightarrow> f (trim ''fr'')) = Inr []"
    by (simp add: emptyHookOptions_def emptyHook_def)
  have e2: "toLowerCase = (\<lambda>l. if ignoreCase emptyHookOptions then toLowerCase l else l)"
    by (simp add: emptyHookOptions_def testOptions_def DEFAULT_OPTIONS_def)
  have "normalizeLanguage (LStr ''fr'') emptyHookOptions
          = (if toLowerCase [] = [] then None
             else List.find (\<lambda>l. toLowerCase l = toLowerCase [])
                    (supportedLanguages emptyHookOptions))"
    using normalizeLanguage_contract[where s = "''fr''" and cand = "[]"
        and cf = toLowerCase and opts = emptyHookOptions] conjI[OF e1 e2]
    by blast
  then show "normalizeLanguage (LStr ''fr'') emptyHookOptions = None"
    by (simp add: toLowerCase_def)
qed

text \<open>
  As first stated the claim promises absent for every whitespace-only string. The emptiness
  test of the code comes before \<open>trim\<close>, so three spaces reach the hook as the empty string,
  and the hook \<open>(lang) => lang || 'en'\<close> turns it into a supported language.
\<close>

theorem normalize_whitespace_counterexample:
  "normalizeLanguage (LStr ''   '')
     (testOptions\<lparr>convertDetectedLanguage := Some defaultingHook\<rparr>) = Some ''en''"
  by (simp add: normalizeLanguage_def fixture_defs string_defs js_index_def)

section \<open>Properties of the pipeline\<close>

lemma normalizeLanguage_supported:
  "normalizeLanguage lang opts = Some r \<Longrightarrow> r \<in> set (supportedLanguages opts)"
proof (cases lang)
  case (LStr s)
  assume a: "normalizeLanguage lang opts = Some r"
  show ?thesis
  proof (cases "s = []")
    case True with a LStr show ?thesis by (simp add: normalizeLanguage_def)
  next
    case False
    show ?thesis
    proof (cases "case convertDetectedLanguage opts of None \<Rightarrow> Inr (trim s) | Some f \<Rightarrow> f (trim s)")
      case (Inl e)
      with a LStr False show ?thesis by (simp add: normalizeLanguage_def)
    next
      case (Inr cand)
      from normalizeLanguage_str[OF False Inr refl] a LStr
      have "List.find (\<lambda>l. (if ignoreCase opts then toLowerCase l else l) = (if ignoreCase opts then toLowerCase cand else cand)) (supportedLanguages opts) = Some r"
        by (simp split: if_splits)
      then show ?thesis by (auto simp: find_Some_iff)
    qed
  qed
qed (simp_all add: normalizeLanguage_def)

lemma cookieWrites_append: "cookieWrites (xs @ ys) = cookieWrites xs @ cookieWrites ys"
  by (induction xs rule: cookieWrites.induct) simp_all

lemma cookieWrites_reads: "list_all isRead evs \<Longrightarrow> cookieWrites evs = []"
  by (induction evs rule: cookieWrites.induct) simp_all

lemma runDetector_reads: "list_all isRead (snd (runDetector d c opts))"
  by (simp add: runDetector_def detectors_def detectFromQuery_def detectFromCookie_def
      detectFromHeader_def detectFromPath_def Let_def
      split: sum.splits option.splits cookie_val.splits)

lemma filter_reads: "list_all isRead evs \<Longrightarrow> filter isRead evs = evs"
  by (induction evs) simp_all

lemma detectLoop_all_fail:
  "\<not> truthy v \<Longrightarrow> \<forall>d\<in>set ord. \<not> detectorSucceeds (runDetector d c opts) \<Longrightarrow>
     \<not> truthy (fst (detectLoop ord c opts v))"
proof (induction ord arbitrary: v)
  case Nil then show ?case by simp
next
  case (Cons d ord)
  obtain r evs where rd: "runDetector d c opts = (r, evs)" by (cases "runDetector d c opts")
  from Cons.prems have nd: "\<not> detectorSucceeds (r, evs)" using rd by simp
  have rest: "\<forall>d\<in>set ord. \<not> detectorSucceeds (runDetector d c opts)" using Cons.prems by simp
  show ?case
  proof (cases r)
    case (Inl e)
    then show ?thesis using rd Cons.IH[OF Cons.prems(1) rest]
      by (simp add: case_prod_beta)
  next
    case (Inr l)
    with nd have nl: "\<not> truthy l" by (simp add: detectorSucceeds_def)
    then show ?thesis using rd Inr Cons.IH[OF nl rest]
      by (simp add: case_prod_beta)
  qed
qed

lemma detectLoop_first_success:
  "\<forall>d\<in>set pre. \<not> detectorSucceeds (runDetector d c opts) \<Longrightarrow>
   fst (runDetector name c opts) = Inr (Some l) \<Longrightarrow> l \<noteq> [] \<Longrightarrow>
     fst (detectLoop (pre @ name # post) c opts v) = Some l"
proof (induction pre arbitrary: v)
  case Nil
  obtain evs where rd: "runDetector name c opts = (Inr (Some l), evs)"
    using Nil.prems(2) by (cases "runDetector name c opts") simp
  then show ?case using Nil.prems(3) by simp
next
  case (Cons d pre)
  obtain r evs where rd: "runDetector d c opts = (r, evs)" by (cases "runDetector d c opts")
  from Cons.prems have nd: "\<not> detectorSucceeds (r, evs)" using rd by simp
  have rest: "\<forall>d\<in>set pre. \<not> detectorSucceeds (runDetector d c opts)" using Cons.prems by simp
  note ih = Cons.IH[OF rest Cons.prems(2,3)]
  show ?case
  proof (cases r)
    case (Inl e)
    then show ?thesis using rd ih by (simp add: case_prod_beta)
  next
    case (Inr l')
    with nd have nl: "\<not> truthy l'" by (simp add: detectorSucceeds_def)
    then show ?thesis using rd Inr ih by (simp add: case_prod_beta)
  qed
qed

lemma detectLoop_reads_success:
  "\<forall>d\<in>set pre. \<not> detectorSucceeds (runDetector d c opts) \<Longrightarrow>
   detectorSucceeds (runDetector name c opts) \<Longrightarrow>
     filter isRead (snd (detectLoop (pre @ name # post) c opts v))
       = concat (map (\<lambda>d. snd (runDetector d c opts)) (pre @ [name]))"
proof (induction pre arbitrary: v)
  case Nil
  obtain r evs where rd: "runDetector name c opts = (r, evs)" by (cases "runDetector name c opts")
  with Nil.prems(2) obtain l where r: "r = Inr l" "truthy l"
    by (cases r) (simp_all add: detectorSucceeds_def)
  have "list_all isRead evs" using runDetector_reads[of name c opts] rd by simp
  then show ?case using rd r by (simp add: filter_reads)
next
  case (Cons d pre)
  obtain r evs where rd: "runDetector d c opts = (r, evs)" by (cases "runDetector d c opts")
  from Cons.prems have nd: "\<not> detectorSucceeds (r, evs)" using rd by simp
  have rest: "\<forall>d\<in>set pre. \<not> detectorSucceeds (runDetector d c opts)" using Cons.prems by simp
  note ih = Cons.IH[OF rest Cons.prems(2)]
  have ev: "filter isRead evs = evs" using runDetector_reads[of d c opts] rd by (simp add: filter_reads)
  show ?case
  proof (cases r)
    case (Inl e)
    then show ?thesis using rd ih ev by (simp add: case_prod_beta)
  next
    case (Inr l')
    with nd have nl: "\<not> truthy l'" by (simp add: detectorSucceeds_def)
    then show ?thesis using rd Inr ih ev by (simp add: case_prod_beta)
  qed
qed

lemma detectLoop_reads_all_fail:
  "\<forall>d\<in>set ord. \<not> detectorSucceeds (runDetector d c opts) \<Longrightarrow>
     filter isRead (snd (detectLoop ord c opts v))
       = concat (map (\<lambda>d. snd (runDetector d c opts)) ord)"
proof (induction ord arbitrary: v)
  case Nil then show ?case by simp
next
  case (Cons d ord)
  obtain r evs where rd: "runDetector d c opts = (r, evs)" by (cases "runDetector d c opts")
  from Cons.prems have nd: "\<not> detectorSucceeds (r, evs)" using rd by simp
  have rest: "\<forall>d\<in>set ord. \<not> detectorSucceeds (runDetector d c opts)" using Cons.prems by simp
  note ih = Cons.IH[OF rest]
  have ev: "filter isRead evs = evs" using runDetector_reads[of d c opts] rd by (simp add: filter_reads)
  show ?case
  proof (cases r)
    case (Inl e)
    then show ?thesis using rd ih ev by (simp add: case_prod_beta)
  next
    case (Inr l')
    with nd have nl: "\<not> truthy l'" by (simp add: detectorSucceeds_def)
    then show ?thesis using rd Inr ih ev by (simp add: case_prod_beta)
  qed
qed

lemma detectLoop_no_writes: "cookieWrites (snd (detectLoop ord c opts v)) = []"
proof (induction ord arbitrary: v)
  case Nil then show ?case by simp
next
  case (Cons d ord)
  obtain r evs where rd: "runDetector d c opts = (r, evs)" by (cases "runDetector d c opts")
  have ev: "cookieWrites evs = []" using runDetector_reads[of d c opts] rd by (simp add: cookieWrites_reads)
  show ?case
    by (cases r) (simp_all add: rd ev cookieWrites_append Cons.IH case_prod_beta)
qed

lemma cacheLanguage_no_reads: "filter isRead (cacheLanguage c l opts) = []"
  by (simp add: cacheLanguage_def split: caches_val.splits option.splits sum.splits)

lemma firstNormalized_supported:
  "firstNormalized ls opts = Some r \<Longrightarrow> r \<in> set (supportedLanguages opts)"
  by (induction ls opts rule: firstNormalized.induct)
     (auto simp: Let_def normalizeLanguage_supported split: if_splits)

lemma runDetector_supported:
  "fst (runDetector d c opts) = Inr (Some r) \<Longrightarrow> r \<in> set (supportedLanguages opts)"
  by (auto simp: runDetector_def detectors_def detectFromQuery_def detectFromCookie_def
      detectFromHeader_def detectFromPath_def Let_def
      normalizeLanguage_supported firstNormalized_supported
      split: sum.splits option.splits cookie_val.splits if_splits)

lemma detectLoop_supported:
  "(\<forall>r. v = Some r \<longrightarrow> r \<in> set (supportedLanguages opts)) \<Longrightarrow>
   fst (detectLoop ord c opts v) = Some r \<Longrightarrow> r \<in> set (supportedLanguages opts)"
proof (induction ord arbitrary: v)
  case Nil then show ?case by simp
next
  case (Cons d ord)
  obtain res evs where rd: "runDetector d c opts = (res, evs)" by (cases "runDetector d c opts")
  show ?case
  proof (cases res)
    case (Inl e)
    then show ?thesis using rd Cons.IH[OF Cons.prems(1)] Cons.prems(2)
      by (simp add: case_prod_beta)
  next
    case (Inr l)
    have sup: "\<forall>r. l = Some r \<longrightarrow> r \<in> set (supportedLanguages opts)"
      using runDetector_supported[of d c opts] rd Inr by simp
    show ?thesis
    proof (cases "truthy l")
      case True
      then show ?thesis using rd Inr Cons.prems(2) sup by simp
    next
      case False
      then show ?thesis using rd Inr Cons.IH[OF sup] Cons.prems(2) by (simp add: case_prod_beta)
    qed
  qed
qed

lemma detectLanguage_fst:
  "fst (detectLanguage c opts) =
     (case fst (detectLoop (order opts) c opts None) of
        None \<Rightarrow> fallbackLanguage opts
      | Some l \<Rightarrow> if l = [] then fallbackLanguage opts else l)"
  by (simp add: detectLanguage_def case_prod_beta Let_def)

lemma detectLanguage_snd:
  "snd (detectLanguage c opts) =
     snd (detectLoop (order opts) c opts None)
     @ (if \<not> truthy (fst (detectLoop (order opts) c opts None)) \<and> debug opts
        then [ConsoleError ''Language detection failed'' None] else [])
     @ (if truthy (fst (detectLoop (order opts) c opts None)) \<and> truthy_caches (caches opts)
        then cacheLanguage c (fst (detectLanguage c opts)) opts else [])"
  by (simp add: detectLanguage_def case_prod_beta Let_def)

lemma truthy_Some: "truthy v \<Longrightarrow> \<exists>l. v = Some l \<and> l \<noteq> []"
  by (cases v) simp_all

lemma detectLoop_detected_iff:
  "truthy (fst (detectLoop ord c opts None))
     \<longleftrightarrow> (\<exists>d\<in>set ord. detectorSucceeds (runDetector d c opts))"
proof
  assume "truthy (fst (detectLoop ord c opts None))"
  then show "\<exists>d\<in>set ord. detectorSucceeds (runDetector d c opts)"
    using detectLoop_all_fail[of None ord c opts] by auto
next
  assume "\<exists>d\<in>set ord. detectorSucceeds (runDetector d c opts)"
  then obtain pre name post where sp: "ord = pre @ name # post"
    "detectorSucceeds (runDetector name c opts)"
    "\<forall>d\<in>set pre. \<not> detectorSucceeds (runDetector d c opts)"
    using split_list_first_prop[of ord "\<lambda>d. detectorSucceeds (runDetector d c opts)"] by blast
  from sp(2) obtain l where l: "fst (runDetector name c opts) = Inr (Some l)" "l \<noteq> []"
    by (auto simp: detectorSucceeds_def split: sum.splits dest: truthy_Some)
  show "truthy (fst (detectLoop ord c opts None))"
    using detectLoop_first_success[OF sp(3) l] sp(1) l(2) by simp
qed

lemma runDetector_setCookie:
  "runDetector d (c\<lparr>setCookie := w\<rparr>) opts = runDetector d c opts"
  by (simp add: runDetector_def detectors_def detectFromQuery_def detectFromCookie_def
      detectFromHeader_def detectFromPath_def)

lemma detectLoop_setCookie:
  "detectLoop ord (c\<lparr>setCookie := w\<rparr>) opts v = detectLoop ord c opts v"
  by (induction ord arbitrary: v)
     (simp_all add: runDetector_setCookie case_prod_beta split: sum.splits)

lemma cacheLanguage_writes:
  "setCookie c = Some w \<Longrightarrow>
     cookieWrites (cacheLanguage c l opts)
       = (if cachesEnabled (caches opts) then [(lookupCookie opts, l)] else [])"
  by (simp add: cacheLanguage_def split: caches_val.splits sum.splits)

lemma cachesEnabled_truthy: "cachesEnabled cv \<Longrightarrow> truthy_caches cv"
  by (cases cv) simp_all

text \<open>
  Claim C9. Under options accepted by \<open>validateOptions\<close>, the language produced for a
  request is one of the supported languages.
\<close>

theorem negotiated_language_supported:
  assumes "validateOptions opts = Inr ()"
  shows "fst (detectLanguage c opts) \<in> set (supportedLanguages opts)"
proof -
  have fb: "fallbackLanguage opts \<in> set (supportedLanguages opts)"
    using assms by (simp add: validateOptions_def split: if_splits)
  show ?thesis
  proof (cases "fst (detectLoop (order opts) c opts None)")
    case None
    then show ?thesis using fb by (simp add: detectLanguage_fst)
  next
    case (Some l)
    have "l \<in> set (supportedLanguages opts)"
      using detectLoop_supported[of None opts "order opts" c l] Some by simp
    then show ?thesis using Some fb by (simp add: detectLanguage_fst)
  qed
qed

text \<open>Instances: a detected language and the fallback.\<close>

theorem negotiated_language_supported_witness:
  "validateOptions testOptions = Inr ()
   \<and> fst (detectLanguage brokenQueryCtx testOptions) \<in> set (supportedLanguages testOptions)
   \<and> fst (detectLanguage allFailCtx testOptions) \<in> set (supportedLanguages testOptions)"
proof -
  have v: "validateOptions testOptions = Inr ()"
    by (simp add: validateOptions_def fixture_defs detectorKeys_def)
  show ?thesis
    using v negotiated_language_supported[OF v, of brokenQueryCtx]
      negotiated_language_supported[OF v, of allFailCtx]
    by simp
qed

text \<open>
  Claim C2. For an order that names known strategies, as \<open>validateOptions\<close> demands,
  the strategies run in the configured order. When the strategies before one
  all throw or return nothing and that one returns a language, the result is that
  language, and the collaborator calls of the request are exactly those of the strategies
  up to and including it: the failures did not stop the pipeline, and no later strategy
  ran. When every strategy throws or returns nothing, all of them ran, the result is the
  fallback language, and it is not cached as a detected one.
\<close>

theorem pipeline_short_circuit:
  assumes "set (order opts) \<subseteq> set detectorKeys"
  shows "(order opts = pre @ name # post
            \<and> (\<forall>d\<in>set pre. \<not> detectorSucceeds (runDetector d c opts))
            \<and> fst (runDetector name c opts) = Inr (Some l) \<and> l \<noteq> []
          \<longrightarrow> fst (detectLanguage c opts) = l
              \<and> filter isRead (snd (detectLanguage c opts))
                  = concat (map (\<lambda>d. snd (runDetector d c opts)) (pre @ [name])))
       \<and> ((\<forall>d\<in>set (order opts). \<not> detectorSucceeds (runDetector d c opts))
          \<longrightarrow> fst (detectLanguage c opts) = fallbackLanguage opts
              \<and> cookieWrites (snd (detectLanguage c opts)) = []
              \<and> filter isRead (snd (detectLanguage c opts))
                  = concat (map (\<lambda>d. snd (runDetector d c opts)) (order opts)))"
proof (intro conjI impI)
  assume a: "order opts = pre @ name # post
            \<and> (\<forall>d\<in>set pre. \<not> detectorSucceeds (runDetector d c opts))
            \<and> fst (runDetector name c opts) = Inr (Some l) \<and> l \<noteq> []"
  then have ok: "detectorSucceeds (runDetector name c opts)"
    by (simp add: detectorSucceeds_def)
  have res: "fst (detectLoop (order opts) c opts None) = Some l"
    using a detectLoop_first_success[of pre c opts name l post None] by simp
  show "fst (detectLanguage c opts) = l"
    using res a by (simp add: detectLanguage_fst)
  have "filter isRead (snd (detectLoop (order opts) c opts None))
          = concat (map (\<lambda>d. snd (runDetector d c opts)) (pre @ [name]))"
    using a ok detectLoop_reads_success[of pre c opts name post None] by simp
  then show "filter isRead (snd (detectLanguage c opts))
          = concat (map (\<lambda>d. snd (runDetector d c opts)) (pre @ [name]))"
    by (simp add: detectLanguage_snd cacheLanguage_no_reads)
next
  assume a: "\<forall>d\<in>set (order opts). \<not> detectorSucceeds (runDetector d c opts)"
  have nt: "\<not> truthy (fst (detectLoop (order opts) c opts None))"
    using detectLoop_all_fail[OF _ a, of None] by simp
  then show "fst (detectLanguage c opts) = fallbackLanguage opts"
    by (cases "fst (detectLoop (order opts) c opts None)") (simp_all add: detectLanguage_fst)
  show "cookieWrites (snd (detectLanguage c opts)) = []"
    using nt by (simp add: detectLanguage_snd cookieWrites_append detectLoop_no_writes)
  show "filter isRead (snd (detectLanguage c opts))
          = concat (map (\<lambda>d. snd (runDetector d c opts)) (order opts))"
    using nt detectLoop_reads_all_fail[OF a, of None]
    by (simp add: detectLanguage_snd)
qed

text \<open>
  With the default order: the query accessor throws and the cookie holds \<open>fr\<close>, so the
  header is never read; and a request whose three sources are all unsupported.
\<close>

theorem pipeline_short_circuit_witness:
  "fst (detectLanguage brokenQueryCtx testOptions) = ''fr''
   \<and> filter isRead (snd (detectLanguage brokenQueryCtx testOptions))
       = [QueryRead ''lang'', CookieRead ''language'']
   \<and> fst (detectLanguage allFailCtx testOptions) = ''en''
   \<and> cookieWrites (snd (detectLanguage allFailCtx testOptions)) = []
   \<and> filter isRead (snd (detectLanguage allFailCtx testOptions))
       = [QueryRead ''lang'', CookieRead ''language'', HeaderRead ''accept-language'']"
proof -
  have v: "set (order testOptions) \<subseteq> set detectorKeys"
    by (simp add: fixture_defs detectorKeys_def)
  have q: "runDetector ''querystring'' brokenQueryCtx testOptions
             = (Inl TypeError, [QueryRead ''lang''])"
    by (simp add: fixture_defs detector_defs)
  have k: "runDetector ''cookie'' brokenQueryCtx testOptions
             = (Inr (Some ''fr''), [CookieRead ''language''])"
    by (simp add: fixture_defs detector_defs string_defs)
  have h1: "order testOptions = [''querystring''] @ ''cookie'' # [''header'']
            \<and> (\<forall>d\<in>set [''querystring'']. \<not> detectorSucceeds (runDetector d brokenQueryCtx testOptions))
            \<and> fst (runDetector ''cookie'' brokenQueryCtx testOptions) = Inr (Some ''fr'')
            \<and> ''fr'' \<noteq> []"
    by (simp add: q k detectorSucceeds_def) (simp add: fixture_defs)
  have pt: "parseAccept (Some ''pt'') = [\<lparr>type = ''pt'', params = Map.empty, q = Fin 1\<rparr>]"
    by (simp add: parser_defs)
  have a1: "runDetector ''querystring'' allFailCtx testOptions = (Inr None, [QueryRead ''lang''])"
    by (simp add: fixture_defs detector_defs string_defs)
  have a2: "runDetector ''cookie'' allFailCtx testOptions = (Inr None, [CookieRead ''language''])"
    by (simp add: fixture_defs detector_defs string_defs)
  have a3: "runDetector ''header'' allFailCtx testOptions
              = (Inr None, [HeaderRead ''accept-language''])"
    by (simp add: fixture_defs detector_defs string_defs parseAcceptLanguage_def pt)
  have o: "order testOptions = [''querystring'', ''cookie'', ''header'']"
    by (simp add: fixture_defs)
  have h2: "\<forall>d\<in>set (order testOptions). \<not> detectorSucceeds (runDetector d allFailCtx testOptions)"
    by (simp add: o a1 a2 a3 detectorSucceeds_def)
  have fb: "fallbackLanguage testOptions = ''en''"
    by (simp add: fixture_defs)
  from pipeline_short_circuit[OF v, where c = brokenQueryCtx and pre = "[''querystring'']"
      and name = "''cookie''" and post = "[''header'']" and l = "''fr''"] h1
  have p1: "fst (detectLanguage brokenQueryCtx testOptions) = ''fr''
     \<and> filter isRead (snd (detectLanguage brokenQueryCtx testOptions))
        = concat (map (\<lambda>d. snd (runDetector d brokenQueryCtx testOptions))
                   ([''querystring''] @ [''cookie'']))"
    by blast
  from pipeline_short_circuit[OF v, where c = allFailCtx] h2
  have p2: "fst (detectLanguage allFailCtx testOptions) = fallbackLanguage testOptions
     \<and> cookieWrites (snd (detectLanguage allFailCtx testOptions)) = []
     \<and> filter isRead (snd (detectLanguage allFailCtx testOptions))
        = concat (map (\<lambda>d. snd (runDetector d allFailCtx testOptions)) (order testOptions))"
    by blast
  show ?thesis using p1 p2 by (simp add: q k a1 a2 a3 o fb)
qed

text \<open>
  Claim C3. For an order of known strategies and with the cookie plugin installed (the
  middleware checks both before it detects), the cookie writes of a request are exactly
  one write of the result under the configured cookie name when some strategy detected a
  language and \<open>caches\<close> is an array containing \<open>'cookie'\<close>, and none otherwise. The
  result does not depend on what the write does, and a failing write is not thrown by the
  middleware.
\<close>

theorem cache_write_gated:
  assumes "set (order opts) \<subseteq> set detectorKeys" and "setCookie c = Some w"
  shows "cookieWrites (snd (detectLanguage c opts))
           = (if (\<exists>d\<in>set (order opts). detectorSucceeds (runDetector d c opts))
                 \<and> cachesEnabled (caches opts)
              then [(lookupCookie opts, fst (detectLanguage c opts))] else [])
         \<and> fst (detectLanguage (c\<lparr>setCookie := Some w'\<rparr>) opts) = fst (detectLanguage c opts)
         \<and> (getCookie c \<noteq> None \<longrightarrow> thrown (languageMiddleware opts c (Inr ())) = None)"
proof (intro conjI impI)
  show "cookieWrites (snd (detectLanguage c opts))
           = (if (\<exists>d\<in>set (order opts). detectorSucceeds (runDetector d c opts))
                 \<and> cachesEnabled (caches opts)
              then [(lookupCookie opts, fst (detectLanguage c opts))] else [])"
    using cachesEnabled_truthy[of "caches opts"]
    by (auto simp add: detectLanguage_snd cookieWrites_append detectLoop_no_writes
        cacheLanguage_writes[OF assms(2)] detectLoop_detected_iff)
  show "fst (detectLanguage (c\<lparr>setCookie := Some w'\<rparr>) opts) = fst (detectLanguage c opts)"
    by (simp add: detectLanguage_fst detectLoop_setCookie)
next
  assume "getCookie c \<noteq> None"
  then show "thrown (languageMiddleware opts c (Inr ())) = None"
    using assms(2)
    by (simp add: languageMiddleware_def validateCookiePlugin_def case_prod_beta Option.is_none_def)
qed

text \<open>
  A detected language with a cookie store that throws; the same request with
  \<open>caches\<close> set to a truthy value that is not an array; and a request that falls back.
\<close>

theorem cache_write_gated_witness:
  "cookieWrites (snd (detectLanguage cacheFailCtx testOptions)) = [(''language'', ''fr'')]
   \<and> fst (detectLanguage (cacheFailCtx\<lparr>setCookie := Some cookieStore\<rparr>) testOptions)
       = fst (detectLanguage cacheFailCtx testOptions)
   \<and> thrown (languageMiddleware testOptions cacheFailCtx (Inr ())) = None
   \<and> cookieWrites (snd (detectLanguage cacheFailCtx (testOptions\<lparr>caches := CachesOther True\<rparr>)))
       = []
   \<and> cookieWrites (snd (detectLanguage allFailCtx testOptions)) = []"
proof -
  let ?noCache = "testOptions\<lparr>caches := CachesOther True\<rparr>"
  have v: "set (order testOptions) \<subseteq> set detectorKeys"
    and v': "set (order ?noCache) \<subseteq> set detectorKeys"
    by (simp_all add: fixture_defs detectorKeys_def)
  have w: "setCookie cacheFailCtx = Some failingStore"
    and w': "setCookie allFailCtx = Some cookieStore"
    and g: "getCookie cacheFailCtx \<noteq> None"
    by (simp_all add: fixture_defs)
  have o: "order testOptions = [''querystring'', ''cookie'', ''header'']"
    and o': "order ?noCache = [''querystring'', ''cookie'', ''header'']"
    by (simp_all add: fixture_defs)
  have qs: "runDetector ''querystring'' cacheFailCtx testOptions
              = (Inr (Some ''fr''), [QueryRead ''lang''])"
    and qs': "runDetector ''querystring'' cacheFailCtx ?noCache
              = (Inr (Some ''fr''), [QueryRead ''lang''])"
    by (simp_all add: fixture_defs detector_defs string_defs)
  have d1: "\<exists>d\<in>set (order testOptions). detectorSucceeds (runDetector d cacheFailCtx testOptions)"
    by (simp add: o qs detectorSucceeds_def)
  have c1: "cachesEnabled (caches testOptions)" "lookupCookie testOptions = ''language''"
    and c2: "\<not> cachesEnabled (caches ?noCache)"
    by (simp_all add: fixture_defs)
  have pt: "parseAccept (Some ''pt'') = [\<lparr>type = ''pt'', params = Map.empty, q = Fin 1\<rparr>]"
    by (simp add: parser_defs)
  have a1: "runDetector ''querystring'' allFailCtx testOptions = (Inr None, [QueryRead ''lang''])"
    by (simp add: fixture_defs detector_defs string_defs)
  have a2: "runDetector ''cookie'' allFailCtx testOptions = (Inr None, [CookieRead ''language''])"
    by (simp add: fixture_defs detector_defs string_defs)
  have a3: "runDetector ''header'' allFailCtx testOptions
              = (Inr None, [HeaderRead ''accept-language''])"
    by (simp add: fixture_defs detector_defs string_defs parseAcceptLanguage_def pt)
  have d3: "\<not> (\<exists>d\<in>set (order testOptions). detectorSucceeds (runDetector d allFailCtx testOptions))"
    by (simp add: o a1 a2 a3 detectorSucceeds_def)
  have r: "fst (detectLanguage cacheFailCtx testOptions) = ''fr''"
    by (simp add: detectLanguage_def o qs Let_def)
  note t1 = cache_write_gated[OF v w, where w' = cookieStore]
  note t2 = cache_write_gated[OF v' w, where w' = cookieStore]
  note t3 = cache_write_gated[OF v w', where w' = cookieStore]
  show ?thesis
    using t1 t2 t3 d1 c1 c2 d3 g r by simp
qed

section \<open>Properties of the construction and of the plugin check\<close>

text \<open>
  Claim C8. Constructing the middleware throws when the fallback language is not
  supported, when the path index is negative, or when the order names an unknown
  strategy; options that pass the three checks give the middleware. The middleware itself
  throws nothing but the missing-plugin error and what \<open>next()\<close> throws.
\<close>

theorem construction_fails_fast:
  assumes "opts = mergeOptions u"
  shows "(fallbackLanguage opts \<notin> set (supportedLanguages opts)
            \<or> lookupFromPathIndex opts < 0
            \<or> (\<exists>d\<in>set (order opts). d \<notin> {''path'', ''querystring'', ''cookie'', ''header''})
          \<longrightarrow> (\<exists>msg. language u = Inl (Error msg)))
       \<and> (fallbackLanguage opts \<in> set (supportedLanguages opts)
            \<and> 0 \<le> lookupFromPathIndex opts
            \<and> set (order opts) \<subseteq> {''path'', ''querystring'', ''cookie'', ''header''}
          \<longrightarrow> language u = Inr (languageMiddleware opts))
       \<and> (\<forall>c nxt e. thrown (languageMiddleware opts c nxt) = Some e
            \<longrightarrow> e = HttpError 500 ''Cookie plugin (eg: @hoajs/cookie) is required''
                \<or> nxt = Inl e)"
proof (intro conjI impI allI)
  assume "fallbackLanguage opts \<notin> set (supportedLanguages opts)
            \<or> lookupFromPathIndex opts < 0
            \<or> (\<exists>d\<in>set (order opts). d \<notin> {''path'', ''querystring'', ''cookie'', ''header''})"
  then have "\<exists>msg. validateOptions opts = Inl (Error msg)"
    by (auto simp: validateOptions_def detectorKeys_def list_all_iff)
  then show "\<exists>msg. language u = Inl (Error msg)"
    using assms by (auto simp: language_def Let_def)
next
  assume "fallbackLanguage opts \<in> set (supportedLanguages opts)
            \<and> 0 \<le> lookupFromPathIndex opts
            \<and> set (order opts) \<subseteq> {''path'', ''querystring'', ''cookie'', ''header''}"
  then have "validateOptions opts = Inr ()"
    by (auto simp: validateOptions_def detectorKeys_def list_all_iff)
  then show "language u = Inr (languageMiddleware opts)"
    using assms by (simp add: language_def Let_def)
next
  fix c nxt e
  assume "thrown (languageMiddleware opts c nxt) = Some e"
  then show "e = HttpError 500 ''Cookie plugin (eg: @hoajs/cookie) is required'' \<or> nxt = Inl e"
    by (auto simp: languageMiddleware_def validateCookiePlugin_def case_prod_beta
        split: if_splits sum.splits)
qed

text \<open>The three rejected configurations of the test suite, and an accepted one.\<close>

theorem construction_fails_fast_witness:
  "(\<exists>msg. language unsupportedFallback = Inl (Error msg))
   \<and> (\<exists>msg. language negativePathIndex = Inl (Error msg))
   \<and> (\<exists>msg. language invalidDetector = Inl (Error msg))
   \<and> language validUserOptions = Inr (languageMiddleware (mergeOptions validUserOptions))
   \<and> thrown (languageMiddleware (mergeOptions validUserOptions) noPluginCtx (Inr ()))
       = Some (HttpError 500 ''Cookie plugin (eg: @hoajs/cookie) is required'')"
proof -
  have 1: "fallbackLanguage (mergeOptions unsupportedFallback)
             \<notin> set (supportedLanguages (mergeOptions unsupportedFallback))"
    by (simp add: mergeOptions_def fixture_defs)
  have 2: "lookupFromPathIndex (mergeOptions negativePathIndex) < 0"
    by (simp add: mergeOptions_def fixture_defs)
  have 3: "\<exists>d\<in>set (order (mergeOptions invalidDetector)).
             d \<notin> {''path'', ''querystring'', ''cookie'', ''header''}"
    by (simp add: mergeOptions_def fixture_defs)
  have 4: "fallbackLanguage (mergeOptions validUserOptions)
             \<in> set (supportedLanguages (mergeOptions validUserOptions))
           \<and> 0 \<le> lookupFromPathIndex (mergeOptions validUserOptions)
           \<and> set (order (mergeOptions validUserOptions))
               \<subseteq> {''path'', ''querystring'', ''cookie'', ''header''}"
    by (simp add: mergeOptions_def fixture_defs)
  have 5: "thrown (languageMiddleware (mergeOptions validUserOptions) noPluginCtx (Inr ()))
             = Some (HttpError 500 ''Cookie plugin (eg: @hoajs/cookie) is required'')"
    using construction_fails_fast[OF refl, of validUserOptions, THEN conjunct2, THEN conjunct2,
        rule_format, of noPluginCtx "Inr ()"]
    by (simp add: languageMiddleware_def validateCookiePlugin_def noPluginCtx_def)
  show ?thesis
    using construction_fails_fast[OF refl, of unsupportedFallback] 1
      construction_fails_fast[OF refl, of negativePathIndex] 2
      construction_fails_fast[OF refl, of invalidDetector] 3
      construction_fails_fast[OF refl, of validUserOptions] 4 5
    by blast
qed

text \<open>
  Claim C10. When \<open>getCookie\<close> or \<open>setCookie\<close> is missing, the middleware throws
  the HTTP error 500 before anything else: \<open>ctx.language\<close> is not set and no collaborator
  is called, whatever the options are.
\<close>

theorem cookie_plugin_required:
  assumes "getCookie c = None \<or> setCookie c = None"
  shows "languageMiddleware opts c nxt
           = \<lparr> thrown = Some (HttpError 500 ''Cookie plugin (eg: @hoajs/cookie) is required''),
               ctx_language = None, trace = [] \<rparr>"
  using assms by (auto simp: languageMiddleware_def validateCookiePlugin_def)

text \<open>
  Options without the cookie strategy and without caching, on a request that the query
  strategy alone would have settled.
\<close>

theorem cookie_plugin_required_witness:
  "''cookie'' \<notin> set (order cookieFreeOptions) \<and> \<not> cachesEnabled (caches cookieFreeOptions)
   \<and> languageMiddleware cookieFreeOptions noPluginCtx (Inr ())
       = \<lparr> thrown = Some (HttpError 500 ''Cookie plugin (eg: @hoajs/cookie) is required''),
           ctx_language = None, trace = [] \<rparr>"
proof -
  have h: "getCookie noPluginCtx = None \<or> setCookie noPluginCtx = None"
    by (simp add: noPluginCtx_def)
  have f: "''cookie'' \<notin> set (order cookieFreeOptions) \<and> \<not> cachesEnabled (caches cookieFreeOptions)"
    by (simp add: fixture_defs)
  show ?thesis using cookie_plugin_required[OF h, of cookieFreeOptions "Inr ()"] f by simp
qed

section \<open>Properties of the header-value parser\<close>

lemma clamp01_range: "n \<noteq> NaN \<Longrightarrow> \<exists>r. clamp01 n = Fin r \<and> 0 \<le> r \<and> r \<le> 1"
  by (cases n) (auto simp: clamp01_def)

lemma resolveQuality_range: "\<exists>r. resolveQuality qVal = Fin r \<and> 0 \<le> r \<and> r \<le> 1"
  by (cases qVal) (auto simp: resolveQuality_def Let_def clamp01_range)

lemma resolveQuality_policy:
  "resolveQuality qVal =
     (case qVal of
        None \<Rightarrow> Fin 1
      | Some v \<Rightarrow>
          if v = [] then Fin 1
          else (case toNumber v of
                  NaN \<Rightarrow> Fin 1
                | PosInf \<Rightarrow> Fin 1
                | NegInf \<Rightarrow> Fin 0
                | Fin r \<Rightarrow> if 1 < r then Fin 1 else if r < 0 then Fin 0 else Fin r))"
  by (auto simp: resolveQuality_def clamp01_def Let_def split: option.splits jsnum.splits)

lemma parseEntry_q: "parseEntry item = Some e \<Longrightarrow> q e = resolveQuality (params e ''q'')"
  by (auto simp: parseEntry_def Let_def split: list.splits if_splits)

lemma parseEntries_mem: "e \<in> set (parseEntries s) \<Longrightarrow> \<exists>item. parseEntry item = Some e"
  by (auto simp: parseEntries_def List.map_filter_def)

lemma set_insertByQuality: "set (insertByQuality x xs) = insert x (set xs)"
  by (induction xs) auto

lemma set_sortByQuality: "set (sortByQuality xs) = set xs"
  by (induction xs) (auto simp: set_insertByQuality)

lemma parseAccept_mem:
  "e \<in> set (parseAccept header) \<Longrightarrow> \<exists>item. parseEntry item = Some e"
  by (auto simp: parseAccept_def set_sortByQuality split: option.splits if_splits
      dest: parseEntries_mem)

lemma num_less_irrefl: "\<not> num_less a a"
  by (cases a) simp_all

lemma num_less_neq: "num_less a b \<Longrightarrow> a \<noteq> b"
  using num_less_irrefl by auto

lemma num_ge_total: "isFinite a \<Longrightarrow> isFinite b \<Longrightarrow> \<not> num_less a b \<Longrightarrow> num_ge a b"
  by (cases a; cases b) (auto simp: num_ge_def isFinite_def)

lemma num_ge_trans: "num_ge a b \<Longrightarrow> num_ge b c \<Longrightarrow> num_ge a c"
  by (cases a; cases b; cases c) (auto simp: num_ge_def)

lemma sorted_insertByQuality:
  "isFinite (q x) \<Longrightarrow> \<forall>y\<in>set xs. isFinite (q y) \<Longrightarrow>
   sorted_wrt (\<lambda>a b. num_ge (q a) (q b)) xs \<Longrightarrow>
     sorted_wrt (\<lambda>a b. num_ge (q a) (q b)) (insertByQuality x xs)"
proof (induction xs)
  case Nil then show ?case by simp
next
  case (Cons y ys)
  show ?case
  proof (cases "num_less (q x) (q y)")
    case True
    then have "num_ge (q y) (q x)" by (simp add: num_ge_def)
    then show ?thesis using True Cons by (auto simp: set_insertByQuality)
  next
    case False
    then have xy: "num_ge (q x) (q y)" using Cons.prems num_ge_total by simp
    then have "\<forall>z\<in>set ys. num_ge (q x) (q z)"
      using Cons.prems(3) num_ge_trans by auto
    then show ?thesis using False xy Cons.prems(3) by simp
  qed
qed

lemma sorted_sortByQuality:
  "\<forall>y\<in>set xs. isFinite (q y) \<Longrightarrow> sorted_wrt (\<lambda>a b. num_ge (q a) (q b)) (sortByQuality xs)"
  by (induction xs) (simp_all add: sorted_insertByQuality set_sortByQuality)

lemma filter_insertByQuality:
  "filter (\<lambda>e. q e = k) (insertByQuality x xs)
     = (if q x = k then x # filter (\<lambda>e. q e = k) xs else filter (\<lambda>e. q e = k) xs)"
  by (induction xs) (auto dest: num_less_neq)

lemma filter_sortByQuality:
  "filter (\<lambda>e. q e = k) (sortByQuality xs) = filter (\<lambda>e. q e = k) xs"
  by (induction xs) (simp_all add: filter_insertByQuality)

lemma parseEntries_finite: "e \<in> set (parseEntries s) \<Longrightarrow> isFinite (q e)"
proof -
  assume "e \<in> set (parseEntries s)"
  then obtain item where "parseEntry item = Some e" using parseEntries_mem by blast
  then have "q e = resolveQuality (params e ''q'')" by (rule parseEntry_q)
  then show ?thesis using resolveQuality_range[of "params e ''q''"] by (auto simp: isFinite_def)
qed

lemma parseEntries_Nil: "parseEntries [] = []"
  by (simp add: parseEntries_def parseEntry_def List.map_filter_def trimWs_def)
















text \<open>
  Claim C1. Every entry of the parser's result has a quality that is a finite number
  between 0 and 1. It is 1 when the entry has no accepted \<open>q\<close> parameter, when the
  value is the empty string, and when the value is not a number (the token \<open>NaN\<close>
  included); otherwise it is the number clamped: above 1 and positive infinity give 1,
  below 0 and negative infinity give 0, and a value in range is kept.
\<close>

theorem quality_in_unit_interval:
  assumes "e \<in> set (parseAccept header)"
  shows "(\<exists>r. q e = Fin r \<and> 0 \<le> r \<and> r \<le> 1)
       \<and> q e = (case params e ''q'' of
                  None \<Rightarrow> Fin 1
                | Some v \<Rightarrow>
                    if v = [] then Fin 1
                    else (case toNumber v of
                            NaN \<Rightarrow> Fin 1
                          | PosInf \<Rightarrow> Fin 1
                          | NegInf \<Rightarrow> Fin 0
                          | Fin r \<Rightarrow> if 1 < r then Fin 1 else if r < 0 then Fin 0 else Fin r))"
proof -
  from parseAccept_mem[OF assms] obtain item where "parseEntry item = Some e" ..
  then have qe: "q e = resolveQuality (params e ''q'')" by (rule parseEntry_q)
  show ?thesis
    using resolveQuality_range[of "params e ''q''"] resolveQuality_policy[of "params e ''q''"]
    unfolding qe by simp
qed

text \<open>The entry of \<open>b;q=-3\<close>: the value is the number -3 and the quality is 0.\<close>

theorem quality_in_unit_interval_witness:
  "\<lparr>type = ''b'', params = [''q'' \<mapsto> ''-3''], q = Fin 0\<rparr> \<in> set (parseAccept (Some ''b;q=-3''))
   \<and> (\<exists>r. q \<lparr>type = ''b'', params = [''q'' \<mapsto> ''-3''], q = Fin 0\<rparr> = Fin r \<and> 0 \<le> r \<and> r \<le> 1)
   \<and> toNumber ''-3'' = Fin (- 3)"
proof -
  have ev: "parseAccept (Some ''b;q=-3'') = [\<lparr>type = ''b'', params = [''q'' \<mapsto> ''-3''], q = Fin 0\<rparr>]"
    by (simp add: parser_defs)
  then have m: "\<lparr>type = ''b'', params = [''q'' \<mapsto> ''-3''], q = Fin 0\<rparr> \<in> set (parseAccept (Some ''b;q=-3''))"
    by simp
  have n: "toNumber ''-3'' = Fin (- 3)"
    by (simp add: parser_defs)
  show ?thesis using quality_in_unit_interval[OF m] m n by blast
qed

text \<open>
  Claim C6. The result of the parser is sorted by descending quality, and for every
  quality the entries that have it keep their order of appearance in the input.
\<close>

theorem parseAccept_sorted_stable:
  "sorted_wrt (\<lambda>a b. num_ge (q a) (q b)) (parseAccept header)
   \<and> (\<forall>k. filter (\<lambda>e. q e = k) (parseAccept (Some s)) = filter (\<lambda>e. q e = k) (parseEntries s))"
proof
  show "sorted_wrt (\<lambda>a b. num_ge (q a) (q b)) (parseAccept header)"
    by (auto simp: parseAccept_def parseEntries_finite intro!: sorted_sortByQuality
        split: option.splits)
  show "\<forall>k. filter (\<lambda>e. q e = k) (parseAccept (Some s)) = filter (\<lambda>e. q e = k) (parseEntries s)"
    by (simp add: parseAccept_def filter_sortByQuality parseEntries_Nil)
qed

text \<open>Four entries of the same quality, and the mixed header of the test suite.\<close>

theorem parseAccept_sorted_stable_witness:
  "map type (filter (\<lambda>e. q e = Fin (9 / 10))
      (parseAccept (Some ''a;q=0.9,b;q=0.9,c;q=0.9,d;q=0.9''))) = [''a'', ''b'', ''c'', ''d'']
   \<and> sorted_wrt (\<lambda>a b. num_ge (q a) (q b)) (parseAccept (Some ''d;q=0.8,b;q=0.9,c;q=0.8,a;q=0.9''))"
proof -
  have ev: "map (\<lambda>e. (type e, q e)) (parseEntries ''a;q=0.9,b;q=0.9,c;q=0.9,d;q=0.9'')
              = [(''a'', Fin (9 / 10)), (''b'', Fin (9 / 10)), (''c'', Fin (9 / 10)), (''d'', Fin (9 / 10))]"
    by (simp add: parser_defs)
  have "map type (filter (\<lambda>e. q e = Fin (9 / 10)) (parseEntries ''a;q=0.9,b;q=0.9,c;q=0.9,d;q=0.9''))
          = map fst (filter (\<lambda>p. snd p = Fin (9 / 10))
              (map (\<lambda>e. (type e, q e)) (parseEntries ''a;q=0.9,b;q=0.9,c;q=0.9,d;q=0.9'')))"
    by (simp add: filter_map comp_def)
  then have "map type (filter (\<lambda>e. q e = Fin (9 / 10)) (parseEntries ''a;q=0.9,b;q=0.9,c;q=0.9,d;q=0.9''))
          = [''a'', ''b'', ''c'', ''d'']"
    unfolding ev by simp
  then show ?thesis
    using parseAccept_sorted_stable[of "Some ''d;q=0.8,b;q=0.9,c;q=0.8,a;q=0.9''"
        "''a;q=0.9,b;q=0.9,c;q=0.9,d;q=0.9''"]
    by simp
qed



end
